theory Spec2Isabelle
  imports Main
begin

section \<open>Syntax trees as the parsing library hands them over\<close>

text \<open>
  The analyzer of \<^verbatim>\<open>src/index.ts\<close> never looks at source text: it walks the nodes that
  the parsing library built. A node is modelled by the constructors the analyzer tells
  apart (the three function-like kinds, blocks, return statements, the three JSX kinds)
  and one constructor for every other syntax kind.

  The library's node types fix the shape of a body: a function declaration has an optional
  block, a function expression has a block, an arrow function has a block or an expression.
  The first argument of a function-like constructor holds the children that come before
  the body (modifiers, name, type parameters, parameters, return type).
\<close>

datatype syntax_kind =
    SourceFile
  | ClassDeclaration
  | MethodDeclaration
  | Constructor
  | GetAccessor
  | SetAccessor
  | Parameter
  | VariableStatement
  | VariableDeclarationList
  | VariableDeclaration
  | ExpressionStatement
  | IfStatement
  | CallExpression
  | PropertyAccessExpression
  | BinaryExpression
  | Identifier
  | NumericLiteral
  | NullKeyword

datatype node =
    FunctionDeclaration "node list" "node list option"
  | FunctionExpression "node list" "node list"
  | ArrowFunction "node list" node
  | Block "node list"
  | ReturnStatement "node option"
  | JsxElement "node list"
  | JsxSelfClosingElement "node list"
  | JsxFragment "node list"
  | Other syntax_kind "node list"

subsection \<open>Kind predicates\<close>

fun isFunctionDeclaration :: "node \<Rightarrow> bool" where
  "isFunctionDeclaration (FunctionDeclaration pre b) = True"
| "isFunctionDeclaration _ = False"

fun isFunctionExpression :: "node \<Rightarrow> bool" where
  "isFunctionExpression (FunctionExpression pre ss) = True"
| "isFunctionExpression _ = False"

fun isArrowFunction :: "node \<Rightarrow> bool" where
  "isArrowFunction (ArrowFunction pre b) = True"
| "isArrowFunction _ = False"

fun isBlock :: "node \<Rightarrow> bool" where
  "isBlock (Block ss) = True"
| "isBlock _ = False"

fun isReturnStatement :: "node \<Rightarrow> bool" where
  "isReturnStatement (ReturnStatement e) = True"
| "isReturnStatement _ = False"

fun isJsxElement :: "node \<Rightarrow> bool" where
  "isJsxElement (JsxElement cs) = True"
| "isJsxElement _ = False"

fun isJsxSelfClosingElement :: "node \<Rightarrow> bool" where
  "isJsxSelfClosingElement (JsxSelfClosingElement cs) = True"
| "isJsxSelfClosingElement _ = False"

fun isJsxFragment :: "node \<Rightarrow> bool" where
  "isJsxFragment (JsxFragment cs) = True"
| "isJsxFragment _ = False"

subsection \<open>Structural accessors\<close>

text \<open>The children of a node in the order the library's \<^verbatim>\<open>forEachChild\<close> visits them;
  the body of a function-like node is its last child.\<close>

fun forEachChild :: "node \<Rightarrow> node list" where
  "forEachChild (FunctionDeclaration pre b) =
     pre @ (case b of None \<Rightarrow> [] | Some ss \<Rightarrow> [Block ss])"
| "forEachChild (FunctionExpression pre ss) = pre @ [Block ss]"
| "forEachChild (ArrowFunction pre b) = pre @ [b]"
| "forEachChild (Block ss) = ss"
| "forEachChild (ReturnStatement e) = (case e of None \<Rightarrow> [] | Some x \<Rightarrow> [x])"
| "forEachChild (JsxElement cs) = cs"
| "forEachChild (JsxSelfClosingElement cs) = cs"
| "forEachChild (JsxFragment cs) = cs"
| "forEachChild (Other k cs) = cs"

text \<open>\<^verbatim>\<open>getBody\<close> is only called on function-like nodes; a declaration without a body
  (an overload signature, an ambient declaration) yields \<^verbatim>\<open>undefined\<close>.\<close>

fun getBody :: "node \<Rightarrow> node option" where
  "getBody (FunctionDeclaration pre b) = map_option Block b"
| "getBody (FunctionExpression pre ss) = Some (Block ss)"
| "getBody (ArrowFunction pre b) = Some b"
| "getBody _ = None"

fun getStatements :: "node \<Rightarrow> node list" where
  "getStatements (Block ss) = ss"
| "getStatements _ = []"

fun getExpression :: "node \<Rightarrow> node option" where
  "getExpression (ReturnStatement e) = e"
| "getExpression _ = None"

subsection \<open>Depth-first traversal with a skip control\<close>

text \<open>
  The library's \<^verbatim>\<open>forEachDescendant\<close> calls the callback on every child of the start
  node, in order, handing it a control object. After the callback has returned, the
  traversal descends into the children of that node unless the callback called
  \<^verbatim>\<open>skip()\<close> on the control object it was given for that node. The start node itself is
  not visited. A callback is modelled as a function from the node and the state of the
  variables it closes over to the skip flag of that node and the new state.
\<close>

text \<open>The number of nodes of a subtree, counting a function body's block: the measure
  along which every traversal below terminates.\<close>

fun weight :: "node \<Rightarrow> nat" where
  "weight (FunctionDeclaration pre b) =
     2 + sum_list (map weight pre) + (case b of None \<Rightarrow> 0 | Some ss \<Rightarrow> sum_list (map weight ss))"
| "weight (FunctionExpression pre ss) = 2 + sum_list (map weight pre) + sum_list (map weight ss)"
| "weight (ArrowFunction pre b) = 1 + sum_list (map weight pre) + weight b"
| "weight (Block ss) = 1 + sum_list (map weight ss)"
| "weight (ReturnStatement e) = 1 + (case e of None \<Rightarrow> 0 | Some x \<Rightarrow> weight x)"
| "weight (JsxElement cs) = 1 + sum_list (map weight cs)"
| "weight (JsxSelfClosingElement cs) = 1 + sum_list (map weight cs)"
| "weight (JsxFragment cs) = 1 + sum_list (map weight cs)"
| "weight (Other k cs) = 1 + sum_list (map weight cs)"

lemma weight_member: "c \<in> set cs \<Longrightarrow> weight c \<le> sum_list (map weight cs)"
  by (induction cs) auto

lemma weight_forEachChild: "c \<in> set (forEachChild n) \<Longrightarrow> weight c < weight n"
  by (cases n) (auto simp: less_Suc_eq_le dest: weight_member split: option.splits)

function forEachDescendant :: "(node \<Rightarrow> 's \<Rightarrow> bool \<times> 's) \<Rightarrow> node \<Rightarrow> 's \<Rightarrow> 's" where
  "forEachDescendant cbNode n s =
     fold (\<lambda>c s. case cbNode c s of
                    (skip, s') \<Rightarrow> if skip then s' else forEachDescendant cbNode c s')
          (forEachChild n) s"
  by pat_completeness auto
termination
  by (relation "measure (\<lambda>(cbNode, n, s). weight n)") (auto simp: weight_forEachChild)

declare forEachDescendant.simps [simp del]

text \<open>What the traversal does at one node: the callback, then the subtree unless skipped.\<close>

definition visitNode :: "(node \<Rightarrow> 's \<Rightarrow> bool \<times> 's) \<Rightarrow> node \<Rightarrow> 's \<Rightarrow> 's" where
  "visitNode cbNode c s =
     (if fst (cbNode c s) then snd (cbNode c s)
      else forEachDescendant cbNode c (snd (cbNode c s)))"


subsection \<open>The traversal on a bounded call stack\<close>

text \<open>
  The library's traversal is recursive: every level of descent keeps its calls
  (\<^verbatim>\<open>nodeCallback\<close>, \<^verbatim>\<open>forEachChildForNode\<close>, \<^verbatim>\<open>forEachChild\<close>) on the call stack until the
  subtree is done, and the engine throws \<^verbatim>\<open>RangeError\<close> when the stack is exhausted.
  \<open>forEachDescendantWithin d\<close> is the same traversal on a stack that holds \<open>d\<close> more
  levels: descending from a node takes one level, and with none left the call throws.
  An error ends the loop over the remaining children.
\<close>

datatype runtime_error = RangeError

fun forEachDescendantWithin ::
  "nat \<Rightarrow> (node \<Rightarrow> 's \<Rightarrow> bool \<times> 's) \<Rightarrow> node \<Rightarrow> 's \<Rightarrow> runtime_error + 's" where
  "forEachDescendantWithin 0 cbNode n s = Inl RangeError"
| "forEachDescendantWithin (Suc d) cbNode n s =
     fold (\<lambda>c r. case r of
                    Inl e \<Rightarrow> Inl e
                  | Inr s \<Rightarrow>
                      if fst (cbNode c s) then Inr (snd (cbNode c s))
                      else forEachDescendantWithin d cbNode c (snd (cbNode c s)))
          (forEachChild n) (Inr s)"

section \<open>The analyzer\<close>

subsection \<open>Mutable variables of the callbacks\<close>

text \<open>
  The callback that classifies one function-like node writes two variables: its own
  \<^verbatim>\<open>returnsJsx\<close>, and the skip flag behind the control object \<^verbatim>\<open>traversal\<close> that the
  file-level traversal handed to it for that node. The run as a whole writes the two
  counters.
\<close>

record locals =
  returnsJsx :: bool
  skip :: bool

record counters =
  jsxFunctionCount :: nat
  normalFunctionCount :: nat

subsection \<open>Check 1: JSX anywhere below the body\<close>

text \<open>The callback of the traversal of the body (lines 56 to 66). It takes the descendant
  only, so \<^verbatim>\<open>traversal\<close> in it is the control object of the enclosing callback: calling
  \<^verbatim>\<open>traversal.skip()\<close> sets the skip flag of the function-like node under classification,
  and the traversal of the body itself never skips.\<close>

definition descendantCallback :: "node \<Rightarrow> locals \<Rightarrow> bool \<times> locals" where
  "descendantCallback descendant l =
     (False,
      if isJsxElement descendant \<or> isJsxSelfClosingElement descendant \<or> isJsxFragment descendant
      then l\<lparr>returnsJsx := True, skip := True\<rparr>
      else l)"

definition check1 :: "node \<Rightarrow> locals \<Rightarrow> locals" where
  "check1 n l =
     (case getBody n of
        None \<Rightarrow> l
      | Some body \<Rightarrow> forEachDescendant descendantCallback body l)"

subsection \<open>Check 2: return statements and concise arrow bodies\<close>

text \<open>The loop over the statements of a block body (lines 77 to 89 and 103 to 115).\<close>

fun returnStatements :: "node list \<Rightarrow> locals \<Rightarrow> locals" where
  "returnStatements [] l = l"
| "returnStatements (statement # rest) l =
     returnStatements rest
       (if isReturnStatement statement
        then (case getExpression statement of
                None \<Rightarrow> l
              | Some expression \<Rightarrow>
                  if isJsxElement expression \<or> isJsxSelfClosingElement expression
                     \<or> isJsxFragment expression
                  then l\<lparr>returnsJsx := True\<rparr>
                  else l)
        else l)"

definition check2 :: "node \<Rightarrow> locals \<Rightarrow> locals" where
  "check2 n l =
     (if isFunctionDeclaration n \<or> isFunctionExpression n then
        (case getBody n of
           None \<Rightarrow> l
         | Some blockBody \<Rightarrow>
             if isBlock blockBody then returnStatements (getStatements blockBody) l else l)
      else if isArrowFunction n then
        (case getBody n of
           None \<Rightarrow> l
         | Some arrowBody \<Rightarrow>
             if isJsxElement arrowBody \<or> isJsxSelfClosingElement arrowBody
                \<or> isJsxFragment arrowBody
             then l\<lparr>returnsJsx := True\<rparr>
             else if isBlock arrowBody then returnStatements (getStatements arrowBody) l
             else l)
      else l)"

subsection \<open>The callback of the file-level traversal\<close>

text \<open>Lines 44 to 132: a function-like node is classified by check 1 followed by check 2
  and increments one counter; the skip flag the callback leaves behind is the one check 1
  may have set. Every other node is passed over.\<close>

definition classify :: "node \<Rightarrow> locals" where
  "classify n = check2 n (check1 n \<lparr>returnsJsx = False, skip = False\<rparr>)"

definition nodeCallback :: "node \<Rightarrow> counters \<Rightarrow> bool \<times> counters" where
  "nodeCallback n c =
     (if isFunctionDeclaration n \<or> isArrowFunction n \<or> isFunctionExpression n then
        (let l = classify n in
           (skip l,
            if returnsJsx l
            then c\<lparr>jsxFunctionCount := jsxFunctionCount c + 1\<rparr>
            else c\<lparr>normalFunctionCount := normalFunctionCount c + 1\<rparr>))
      else (False, c))"

subsection \<open>The classifier on a bounded call stack\<close>

text \<open>Check 1 is the only part of the classifier that recurses; check 2 is a loop over the
  statements of one block.\<close>

definition check1Within :: "nat \<Rightarrow> node \<Rightarrow> locals \<Rightarrow> runtime_error + locals" where
  "check1Within d n l =
     (case getBody n of
        None \<Rightarrow> Inr l
      | Some body \<Rightarrow> forEachDescendantWithin d descendantCallback body l)"

definition classifyWithin :: "nat \<Rightarrow> node \<Rightarrow> runtime_error + locals" where
  "classifyWithin d n =
     (case check1Within d n \<lparr>returnsJsx = False, skip = False\<rparr> of
        Inl e \<Rightarrow> Inl e
      | Inr l \<Rightarrow> Inr (check2 n l))"

subsection \<open>The run over the source files\<close>

record sourceFile =
  getFilePath :: string
  root :: node

definition analyzeSourceFile :: "sourceFile \<Rightarrow> counters \<Rightarrow> counters" where
  "analyzeSourceFile sf c = forEachDescendant nodeCallback (root sf) c"

subsection \<open>Console output and the asynchronous analysis\<close>

text \<open>Each line the program writes is a constructor carrying the values spliced into the
  message. An error thrown by the parsing library is a value of type \<open>analysis_error\<close>.\<close>

datatype analysis_error = AnalysisError string

datatype stdout_line =
    Analyzing nat string
  | ProcessingFile string
  | AnalysisComplete
  | TotalFilesAnalyzed nat
  | FunctionsReturningJsx nat
  | OtherFunctions nat
  | TotalFunctionsFound nat

datatype stderr_line =
    ProvideTargetFolder
  | Usage
  | NotADirectory string
  | ErrorDuringAnalysis analysis_error

text \<open>What the program reads from outside: the third entry of the argument vector
  (\<open>None\<close> when absent), path resolution, the two file-system queries, and the project
  loader (the creation of the project, the globbing and the parsing of lines 15 to 38),
  which yields the source files or throws.\<close>

record environment =
  argv2 :: "string option"
  resolve :: "string \<Rightarrow> string"
  existsSync :: "string \<Rightarrow> bool"
  isDirectory :: "string \<Rightarrow> bool"
  getSourceFiles :: "string \<Rightarrow> analysis_error + sourceFile list"

text \<open>One turn of the loop over the source files (lines 42 to 133).\<close>

definition processSourceFile ::
  "sourceFile \<Rightarrow> stdout_line list \<times> counters \<Rightarrow> stdout_line list \<times> counters" where
  "processSourceFile sf st =
     (fst st @ [ProcessingFile (getFilePath sf)], analyzeSourceFile sf (snd st))"

text \<open>The loop with the counters as they are when it is entered (lines 35 to 133).\<close>

definition processSourceFiles ::
  "string \<Rightarrow> sourceFile list \<Rightarrow> stdout_line list \<times> counters" where
  "processSourceFiles folderToAnalyze sourceFiles =
     fold processSourceFile sourceFiles
       ([Analyzing (length sourceFiles) folderToAnalyze],
        \<lparr>jsxFunctionCount = 0, normalFunctionCount = 0\<rparr>)"

text \<open>\<^verbatim>\<open>analyzeFunctions\<close>: the lines written to standard output, and the error the promise
  is rejected with, if any.\<close>

definition analyzeFunctions ::
  "environment \<Rightarrow> string \<Rightarrow> stdout_line list \<times> analysis_error option" where
  "analyzeFunctions env folderToAnalyze =
     (case getSourceFiles env folderToAnalyze of
        Inl e \<Rightarrow> ([], Some e)
      | Inr sourceFiles \<Rightarrow>
          (let st = processSourceFiles folderToAnalyze sourceFiles;
               c = snd st
           in (fst st @
               [AnalysisComplete,
                TotalFilesAnalyzed (length sourceFiles),
                FunctionsReturningJsx (jsxFunctionCount c),
                OtherFunctions (normalFunctionCount c),
                TotalFunctionsFound (jsxFunctionCount c + normalFunctionCount c)],
               None)))"

subsection \<open>The top level\<close>

record process =
  exitCode :: nat
  stdout :: "stdout_line list"
  stderr :: "stderr_line list"

text \<open>Lines 145 to 169. An absent argument and the empty string are both falsy.\<close>

definition main :: "environment \<Rightarrow> process" where
  "main env =
     (case argv2 env of
        None \<Rightarrow> \<lparr>exitCode = 1, stdout = [], stderr = [ProvideTargetFolder, Usage]\<rparr>
      | Some targetFolderArg \<Rightarrow>
          if targetFolderArg = [] then
            \<lparr>exitCode = 1, stdout = [], stderr = [ProvideTargetFolder, Usage]\<rparr>
          else
            (let targetFolder = resolve env targetFolderArg in
               if \<not> existsSync env targetFolder \<or> \<not> isDirectory env targetFolder then
                 \<lparr>exitCode = 1, stdout = [], stderr = [NotADirectory targetFolder]\<rparr>
               else
                 (case analyzeFunctions env targetFolder of
                    (out, Some e) \<Rightarrow>
                      \<lparr>exitCode = 1, stdout = out, stderr = [ErrorDuringAnalysis e]\<rparr>
                  | (out, None) \<Rightarrow> \<lparr>exitCode = 0, stdout = out, stderr = []\<rparr>)))"

section \<open>Notions the properties are stated with\<close>

definition isFunctionLike :: "node \<Rightarrow> bool" where
  "isFunctionLike n = (isFunctionDeclaration n \<or> isArrowFunction n \<or> isFunctionExpression n)"

definition isMarkupNode :: "node \<Rightarrow> bool" where
  "isMarkupNode n = (isJsxElement n \<or> isJsxSelfClosingElement n \<or> isJsxFragment n)"

text \<open>All nodes strictly below a node, parents before children, in source order.\<close>

function descendants :: "node \<Rightarrow> node list" where
  "descendants n = concat (map (\<lambda>c. c # descendants c) (forEachChild n))"
  by pat_completeness auto
termination
  by (relation "measure weight") (auto simp: weight_forEachChild)

declare descendants.simps [simp del]

text \<open>The nodes of a subtree, its root first.\<close>

definition subtree :: "node \<Rightarrow> node list" where
  "subtree n = n # descendants n"

text \<open>A subtree contains markup when its root or a node below it is a markup node.\<close>

definition containsMarkup :: "node \<Rightarrow> bool" where
  "containsMarkup n = list_ex isMarkupNode (subtree n)"

text \<open>The verdict on one function-like node.\<close>

datatype classification = MarkupProducing | Plain

definition classification :: "node \<Rightarrow> classification" where
  "classification n = (if returnsJsx (classify n) then MarkupProducing else Plain)"

text \<open>The function-like nodes the file-level traversal calls its callback on, in the order
  of the calls: the traversal of \<open>analyzeSourceFile\<close> with the counters replaced by a log.\<close>

definition enumerateCallback :: "node \<Rightarrow> node list \<Rightarrow> bool \<times> node list" where
  "enumerateCallback n acc =
     (if isFunctionLike n then (skip (classify n), acc @ [n]) else (False, acc))"

definition enumerated :: "sourceFile \<Rightarrow> node list" where
  "enumerated sf = forEachDescendant enumerateCallback (root sf) []"


text \<open>The number of levels a traversal that never skips descends from a node.\<close>

function nestingDepth :: "node \<Rightarrow> nat" where
  "nestingDepth n = Suc (fold max (map nestingDepth (forEachChild n)) 0)"
  by pat_completeness auto
termination
  by (relation "measure weight") (auto simp: weight_forEachChild)

declare nestingDepth.simps [simp del]

text \<open>The number of functions counted so far.\<close>

definition total :: "counters \<Rightarrow> nat" where
  "total c = jsxFunctionCount c + normalFunctionCount c"

section \<open>The scenarios of the specification as syntax trees\<close>

text \<open>Scenario A: \<^verbatim>\<open>() => <div/>\<close>.\<close>

definition scenarioA :: node where
  "scenarioA = ArrowFunction [] (JsxSelfClosingElement [Other Identifier []])"

text \<open>Scenario B: \<^verbatim>\<open>function f(){ return 1 + 1; }\<close>.\<close>

definition scenarioB_statements :: "node list" where
  "scenarioB_statements =
     [ReturnStatement
        (Some (Other BinaryExpression [Other NumericLiteral [], Other NumericLiteral []]))]"

definition scenarioB :: node where
  "scenarioB = FunctionDeclaration [Other Identifier []] (Some scenarioB_statements)"

text \<open>Scenario C: \<^verbatim>\<open>function f(){ const x = <span/>; console.log(x); return null; }\<close>.\<close>

definition scenarioC_statements :: "node list" where
  "scenarioC_statements =
     [Other VariableStatement
        [Other VariableDeclarationList
           [Other VariableDeclaration
              [Other Identifier [], JsxSelfClosingElement [Other Identifier []]]]],
      Other ExpressionStatement
        [Other CallExpression
           [Other PropertyAccessExpression [Other Identifier [], Other Identifier []],
            Other Identifier []]],
      ReturnStatement (Some (Other NullKeyword []))]"

definition scenarioC :: node where
  "scenarioC = FunctionDeclaration [Other Identifier []] (Some scenarioC_statements)"

text \<open>Scenario D: \<^verbatim>\<open>function outer(){ function inner(){ return <p/>; } return 0; }\<close>.\<close>

definition scenarioD_inner :: node where
  "scenarioD_inner =
     FunctionDeclaration [Other Identifier []]
       (Some [ReturnStatement (Some (JsxSelfClosingElement [Other Identifier []]))])"

definition scenarioD_outer :: node where
  "scenarioD_outer =
     FunctionDeclaration [Other Identifier []]
       (Some [scenarioD_inner, ReturnStatement (Some (Other NumericLiteral []))])"

definition scenarioD :: sourceFile where
  "scenarioD = \<lparr>getFilePath = ''/src/d.tsx'', root = Other SourceFile [scenarioD_outer]\<rparr>"

text \<open>A function returning a sum of \<open>k + 1\<close> literals,
  \<^verbatim>\<open>function f(){ return 1 + 1 + ... + 1; }\<close>: the parser nests such a sum to the left, one
  binary expression per operator.\<close>

fun sumOfOnes :: "nat \<Rightarrow> node" where
  "sumOfOnes 0 = Other NumericLiteral []"
| "sumOfOnes (Suc k) = Other BinaryExpression [sumOfOnes k, Other NumericLiteral []]"

definition longSum :: "nat \<Rightarrow> node" where
  "longSum k = FunctionDeclaration [Other Identifier []] (Some [ReturnStatement (Some (sumOfOnes k))])"

text \<open>An overload signature, \<^verbatim>\<open>function f(x: number): void;\<close>, alone in a file.\<close>

definition overloadSignature :: node where
  "overloadSignature =
     FunctionDeclaration [Other Identifier [], Other Parameter [Other Identifier []]] None"

definition overloadFile :: sourceFile where
  "overloadFile = \<lparr>getFilePath = ''/src/o.ts'', root = Other SourceFile [overloadSignature]\<rparr>"

text \<open>A class whose method and getter return markup:
  \<^verbatim>\<open>class C { constructor(){} render(){ return <div/>; } get x(){ return <p/>; } set x(v){} }\<close>.\<close>

definition classExample :: node where
  "classExample =
     Other ClassDeclaration
       [Other Identifier [],
        Other Constructor [Block []],
        Other MethodDeclaration
          [Other Identifier [],
           Block [ReturnStatement (Some (JsxSelfClosingElement [Other Identifier []]))]],
        Other GetAccessor
          [Other Identifier [],
           Block [ReturnStatement (Some (JsxSelfClosingElement [Other Identifier []]))]],
        Other SetAccessor
          [Other Identifier [], Other Parameter [Other Identifier []], Block []]]"

definition classFile :: sourceFile where
  "classFile = \<lparr>getFilePath = ''/src/c.tsx'', root = Other SourceFile [classExample]\<rparr>"

text \<open>Environments: a run over two files, a run without an argument, Scenario F (a path
  that does not exist), and a run whose project loader throws.\<close>

definition exampleEnvironment :: environment where
  "exampleEnvironment =
     \<lparr>argv2 = Some ''src'',
      resolve = (\<lambda>p. ''/'' @ p),
      existsSync = (\<lambda>p. p = ''/src''),
      isDirectory = (\<lambda>p. p = ''/src''),
      getSourceFiles = (\<lambda>p. Inr [scenarioD, overloadFile])\<rparr>"

definition noArgumentEnvironment :: environment where
  "noArgumentEnvironment = exampleEnvironment\<lparr>argv2 := None\<rparr>"

definition scenarioF :: environment where
  "scenarioF = exampleEnvironment\<lparr>argv2 := Some ''missing''\<rparr>"

definition failingLoaderEnvironment :: environment where
  "failingLoaderEnvironment =
     exampleEnvironment\<lparr>getSourceFiles := (\<lambda>p. Inl (AnalysisError ''EACCES''))\<rparr>"

section \<open>The traversal\<close>

lemma forEachDescendant_unfold:
  "forEachDescendant cb n s = fold (visitNode cb) (forEachChild n) s"
proof -
  have "(\<lambda>c s. case cb c s of (sk, s') \<Rightarrow> if sk then s' else forEachDescendant cb c s')
        = visitNode cb"
    by (intro ext) (simp add: visitNode_def split: prod.splits)
  then show ?thesis by (subst forEachDescendant.simps) simp
qed

lemma descendants_unfold: "descendants n = concat (map subtree (forEachChild n))"
  by (subst descendants.simps) (simp add: subtree_def [abs_def])

lemma child_descendant: "c \<in> set (forEachChild n) \<Longrightarrow> c \<in> set (descendants n)"
  by (subst descendants.simps) auto

lemma grandchild_descendant:
  "c \<in> set (forEachChild n) \<Longrightarrow> d \<in> set (descendants c) \<Longrightarrow> d \<in> set (descendants n)"
  by (subst descendants.simps) auto

text \<open>A callback that never skips is folded over all descendants in pre-order.\<close>

lemma fold_visitNode_noskip:
  assumes ns: "\<And>c s. fst (cb c s) = False"
    and sub: "\<And>c s. c \<in> set cs \<Longrightarrow>
                forEachDescendant cb c s = fold (\<lambda>c s. snd (cb c s)) (descendants c) s"
  shows "fold (visitNode cb) cs s =
         fold (\<lambda>c s. snd (cb c s)) (concat (map (\<lambda>c. c # descendants c) cs)) s"
  using sub
proof (induction cs arbitrary: s)
  case Nil
  show ?case by simp
next
  case (Cons a cs)
  have a: "visitNode cb a s = fold (\<lambda>c s. snd (cb c s)) (descendants a) (snd (cb a s))"
    using ns [of a s] Cons.prems [of a "snd (cb a s)"] by (simp add: visitNode_def)
  show ?case using Cons.IH Cons.prems by (simp add: a)
qed

lemma forEachDescendant_noskip:
  assumes ns: "\<And>c s. fst (cb c s) = False"
  shows "forEachDescendant cb n s = fold (\<lambda>c s. snd (cb c s)) (descendants n) s"
proof (induction n arbitrary: s rule: descendants.induct)
  case (1 n)
  show ?case
    by (subst forEachDescendant_unfold, subst descendants.simps)
       (rule fold_visitNode_noskip [OF ns], rule 1)
qed

text \<open>Two callbacks that agree on skipping and keep a relation between their states keep it
  over a whole traversal.\<close>

lemma fold_visitNode_rel:
  assumes step: "\<And>c s t. R s t \<Longrightarrow>
                   fst (cb1 c s) = fst (cb2 c t) \<and> R (snd (cb1 c s)) (snd (cb2 c t))"
    and sub: "\<And>c s t. c \<in> set cs \<Longrightarrow> R s t \<Longrightarrow>
                R (forEachDescendant cb1 c s) (forEachDescendant cb2 c t)"
    and "R s t"
  shows "R (fold (visitNode cb1) cs s) (fold (visitNode cb2) cs t)"
  using sub \<open>R s t\<close>
proof (induction cs arbitrary: s t)
  case Nil
  then show ?case by simp
next
  case (Cons a cs)
  from step [OF Cons.prems(2), of a]
  have sk: "fst (cb1 a s) = fst (cb2 a t)" and r: "R (snd (cb1 a s)) (snd (cb2 a t))"
    by simp_all
  have "R (visitNode cb1 a s) (visitNode cb2 a t)"
  proof (cases "fst (cb1 a s)")
    case True
    with sk r show ?thesis by (simp add: visitNode_def)
  next
    case False
    with sk Cons.prems(1) [of a, OF _ r] show ?thesis by (simp add: visitNode_def)
  qed
  with Cons.IH [of "visitNode cb1 a s" "visitNode cb2 a t"] Cons.prems(1)
  show ?case by simp
qed

lemma forEachDescendant_rel:
  assumes step: "\<And>c s t. R s t \<Longrightarrow>
                   fst (cb1 c s) = fst (cb2 c t) \<and> R (snd (cb1 c s)) (snd (cb2 c t))"
  shows "R s t \<Longrightarrow> R (forEachDescendant cb1 n s) (forEachDescendant cb2 n t)"
proof (induction n arbitrary: s t rule: descendants.induct)
  case (1 n)
  show ?case
    unfolding forEachDescendant_unfold [of _ n]
    by (rule fold_visitNode_rel [where R = R, OF step]) (auto intro: 1)
qed

section \<open>The two checks\<close>

lemma fold_descendantCallback:
  "fold (\<lambda>c s. snd (descendantCallback c s)) xs l =
     (if list_ex isMarkupNode xs then l\<lparr>returnsJsx := True, skip := True\<rparr> else l)"
  by (induction xs arbitrary: l) (auto simp: descendantCallback_def isMarkupNode_def)

lemma forEachDescendant_descendantCallback:
  "forEachDescendant descendantCallback n l =
     (if list_ex isMarkupNode (descendants n) then l\<lparr>returnsJsx := True, skip := True\<rparr> else l)"
proof -
  have "fst (descendantCallback c s) = False" for c s
    by (simp add: descendantCallback_def)
  then show ?thesis
    by (simp add: forEachDescendant_noskip fold_descendantCallback)
qed

lemma check1_eq:
  "check1 n l =
     (case getBody n of
        None \<Rightarrow> l
      | Some b \<Rightarrow> if list_ex isMarkupNode (descendants b)
                  then l\<lparr>returnsJsx := True, skip := True\<rparr> else l)"
  by (simp add: check1_def forEachDescendant_descendantCallback split: option.splits)

lemma returnStatements_step:
  "returnStatements (st # ss) l =
     returnStatements ss
       (if (\<exists>e. st = ReturnStatement (Some e) \<and> isMarkupNode e)
        then l\<lparr>returnsJsx := True\<rparr> else l)"
proof (cases st)
  case (ReturnStatement eo)
  then show ?thesis by (cases eo) (simp_all add: isMarkupNode_def)
qed simp_all

lemma returnStatements_cases:
  "returnStatements ss l = l \<or>
   (returnStatements ss l = l\<lparr>returnsJsx := True\<rparr> \<and>
    (\<exists>e. ReturnStatement (Some e) \<in> set ss \<and> isMarkupNode e))"
proof (induction ss arbitrary: l)
  case Nil
  show ?case by simp
next
  case (Cons st ss)
  show ?case
  proof (cases "\<exists>e. st = ReturnStatement (Some e) \<and> isMarkupNode e")
    case True
    then have step: "returnStatements (st # ss) l = returnStatements ss (l\<lparr>returnsJsx := True\<rparr>)"
      by (simp only: returnStatements_step if_True)
    have "returnStatements ss (l\<lparr>returnsJsx := True\<rparr>) = l\<lparr>returnsJsx := True\<rparr>"
      using Cons.IH [of "l\<lparr>returnsJsx := True\<rparr>"] by auto
    moreover from True have "\<exists>e. ReturnStatement (Some e) \<in> set (st # ss) \<and> isMarkupNode e"
      by auto
    ultimately show ?thesis using step by simp
  next
    case False
    then have step: "returnStatements (st # ss) l = returnStatements ss l"
      by (simp only: returnStatements_step if_False)
    from Cons.IH [of l] show ?thesis
    proof
      assume "returnStatements ss l = l"
      with step show ?thesis by simp
    next
      assume "returnStatements ss l = l\<lparr>returnsJsx := True\<rparr> \<and>
              (\<exists>e. ReturnStatement (Some e) \<in> set ss \<and> isMarkupNode e)"
      then have "returnStatements ss l = l\<lparr>returnsJsx := True\<rparr>"
        and "\<exists>e. ReturnStatement (Some e) \<in> set (st # ss) \<and> isMarkupNode e"
        by auto
      with step show ?thesis by simp
    qed
  qed
qed


lemma markup_return_descendant:
  assumes "ReturnStatement (Some e) \<in> set ss" and "isMarkupNode e"
  shows "list_ex isMarkupNode (descendants (Block ss))"
proof -
  have "e \<in> set (descendants (ReturnStatement (Some e)))"
    by (rule child_descendant) simp
  moreover have "ReturnStatement (Some e) \<in> set (forEachChild (Block ss))"
    using assms(1) by simp
  ultimately have "e \<in> set (descendants (Block ss))"
    by (rule grandchild_descendant [rotated])
  with assms(2) show ?thesis
    unfolding list_ex_iff by blast
qed

lemma returnStatements_True:
  "returnStatements ss \<lparr>returnsJsx = True, skip = k\<rparr> = \<lparr>returnsJsx = True, skip = k\<rparr>"
  using returnStatements_cases [of ss "\<lparr>returnsJsx = True, skip = k\<rparr>"] by auto

lemma returnStatements_no_markup:
  assumes "\<not> list_ex isMarkupNode (descendants (Block ss))"
  shows "returnStatements ss l = l"
proof -
  from assms markup_return_descendant [of _ ss]
  have "\<not> (\<exists>e. ReturnStatement (Some e) \<in> set ss \<and> isMarkupNode e)" by blast
  with returnStatements_cases [of ss l] show ?thesis by blast
qed

lemma classify_FunctionDeclaration_None:
  "classify (FunctionDeclaration pre None) = \<lparr>returnsJsx = False, skip = False\<rparr>"
  by (simp add: classify_def check1_def check2_def)

lemma classify_FunctionDeclaration_Some:
  "classify (FunctionDeclaration pre (Some ss)) =
     (if list_ex isMarkupNode (descendants (Block ss))
      then \<lparr>returnsJsx = True, skip = True\<rparr> else \<lparr>returnsJsx = False, skip = False\<rparr>)"
  by (simp add: classify_def check1_eq check2_def returnStatements_True
        returnStatements_no_markup)

lemma classify_FunctionExpression:
  "classify (FunctionExpression pre ss) =
     (if list_ex isMarkupNode (descendants (Block ss))
      then \<lparr>returnsJsx = True, skip = True\<rparr> else \<lparr>returnsJsx = False, skip = False\<rparr>)"
  by (simp add: classify_def check1_eq check2_def returnStatements_True
        returnStatements_no_markup)

lemma classify_ArrowFunction_Block:
  "classify (ArrowFunction pre (Block ss)) =
     (if list_ex isMarkupNode (descendants (Block ss))
      then \<lparr>returnsJsx = True, skip = True\<rparr> else \<lparr>returnsJsx = False, skip = False\<rparr>)"
  by (simp add: classify_def check1_eq check2_def returnStatements_True
        returnStatements_no_markup)

lemma classify_ArrowFunction_expression:
  assumes "\<not> isBlock b"
  shows "classify (ArrowFunction pre b) =
     \<lparr>returnsJsx = (isMarkupNode b \<or> list_ex isMarkupNode (descendants b)),
      skip = list_ex isMarkupNode (descendants b)\<rparr>"
  using assms by (simp add: classify_def check1_eq check2_def isMarkupNode_def)


text \<open>The verdict and the skip flag in closed form, for any node.\<close>

lemma returnsJsx_classify:
  "returnsJsx (classify n) = (case getBody n of None \<Rightarrow> False | Some b \<Rightarrow> containsMarkup b)"
proof (cases n)
  case (FunctionDeclaration pre b)
  then show ?thesis
    by (cases b)
       (simp_all add: classify_FunctionDeclaration_None classify_FunctionDeclaration_Some
          containsMarkup_def subtree_def isMarkupNode_def)
next
  case (FunctionExpression pre ss)
  then show ?thesis
    by (simp add: classify_FunctionExpression containsMarkup_def subtree_def isMarkupNode_def)
next
  case (ArrowFunction pre b)
  show ?thesis
  proof (cases b)
    case (Block ss)
    with ArrowFunction show ?thesis
      by (simp add: classify_ArrowFunction_Block containsMarkup_def subtree_def isMarkupNode_def)
  qed (simp_all add: ArrowFunction classify_ArrowFunction_expression containsMarkup_def subtree_def)
qed (simp_all add: classify_def check1_def check2_def)

lemma skip_classify:
  "skip (classify n) =
     (case getBody n of None \<Rightarrow> False | Some b \<Rightarrow> list_ex isMarkupNode (descendants b))"
proof (cases n)
  case (FunctionDeclaration pre b)
  then show ?thesis
    by (cases b)
       (simp_all add: classify_FunctionDeclaration_None classify_FunctionDeclaration_Some)
next
  case (FunctionExpression pre ss)
  then show ?thesis by (simp add: classify_FunctionExpression)
next
  case (ArrowFunction pre b)
  show ?thesis
  proof (cases b)
    case (Block ss)
    with ArrowFunction show ?thesis by (simp add: classify_ArrowFunction_Block)
  qed (simp_all add: ArrowFunction classify_ArrowFunction_expression)
qed (simp_all add: classify_def check1_def check2_def)


text \<open>Check 1 and check 2 taken alone, each started from unset variables.\<close>

lemma returnsJsx_check1:
  "returnsJsx (check1 n \<lparr>returnsJsx = False, skip = False\<rparr>) =
     (case getBody n of None \<Rightarrow> False | Some b \<Rightarrow> list_ex isMarkupNode (descendants b))"
  by (simp add: check1_eq split: option.splits)

lemma returnStatements_found:
  assumes "returnsJsx (returnStatements ss \<lparr>returnsJsx = False, skip = False\<rparr>)"
  shows "list_ex isMarkupNode (descendants (Block ss))"
proof (rule ccontr)
  assume "\<not> list_ex isMarkupNode (descendants (Block ss))"
  then have "returnStatements ss \<lparr>returnsJsx = False, skip = False\<rparr>
             = \<lparr>returnsJsx = False, skip = False\<rparr>"
    by (rule returnStatements_no_markup)
  with assms show False by simp
qed

lemma check2_block:
  "(list_ex isMarkupNode (descendants (Block ss))
    \<or> returnsJsx (returnStatements ss \<lparr>returnsJsx = False, skip = False\<rparr>))
   = list_ex isMarkupNode (descendants (Block ss))"
  using returnStatements_found [of ss] by blast

lemma check1_or_check2:
  "(returnsJsx (check1 n \<lparr>returnsJsx = False, skip = False\<rparr>)
    \<or> returnsJsx (check2 n \<lparr>returnsJsx = False, skip = False\<rparr>))
   = (case getBody n of None \<Rightarrow> False | Some b \<Rightarrow> containsMarkup b)"
proof (cases n)
  case (FunctionDeclaration pre b)
  then show ?thesis
    by (cases b)
       (simp_all add: returnsJsx_check1 check2_def check2_block containsMarkup_def subtree_def
          isMarkupNode_def)
next
  case (FunctionExpression pre ss)
  then show ?thesis
    by (simp add: returnsJsx_check1 check2_def check2_block containsMarkup_def subtree_def
          isMarkupNode_def)
next
  case (ArrowFunction pre b)
  show ?thesis
  proof (cases b)
    case (Block ss)
    with ArrowFunction show ?thesis
      by (simp add: returnsJsx_check1 check2_def check2_block containsMarkup_def subtree_def
            isMarkupNode_def)
  qed (auto simp: ArrowFunction returnsJsx_check1 check2_def containsMarkup_def subtree_def
         isMarkupNode_def)
qed (simp_all add: check1_def check2_def)

section \<open>The classifier on a bounded call stack\<close>

text \<open>A traversal whose callback never skips returns exactly when the stack holds as many
  levels as the tree is deep, and then with the result of the unbounded traversal.\<close>

lemma fold_max_le: "(fold max xs a \<le> (d::nat)) = (a \<le> d \<and> (\<forall>x\<in>set xs. x \<le> d))"
  by (induction xs arbitrary: a) auto

lemma fold_within_noskip:
  assumes ns: "\<And>c s. fst (cb c s) = False"
    and sub: "\<And>c s. c \<in> set cs \<Longrightarrow>
                forEachDescendantWithin d cb c s =
                  (if nestingDepth c \<le> d then Inr (forEachDescendant cb c s) else Inl RangeError)"
  shows "fold (\<lambda>c r. case r of
                    Inl e \<Rightarrow> Inl e
                  | Inr s \<Rightarrow>
                      if fst (cb c s) then Inr (snd (cb c s))
                      else forEachDescendantWithin d cb c (snd (cb c s))) cs r =
         (case r of
            Inl e \<Rightarrow> Inl e
          | Inr s \<Rightarrow> if \<forall>c\<in>set cs. nestingDepth c \<le> d
                      then Inr (fold (visitNode cb) cs s) else Inl RangeError)"
  using sub
proof (induction cs arbitrary: r)
  case Nil
  show ?case by (simp split: sum.splits)
next
  case (Cons a cs)
  show ?case
  proof (cases r)
    case (Inl e)
    with Cons show ?thesis by simp
  next
    case (Inr s)
    show ?thesis
    proof (cases "nestingDepth a \<le> d")
      case True
      with Inr Cons.prems [of a "snd (cb a s)"] Cons.IH Cons.prems ns [of a s]
      show ?thesis by (simp add: visitNode_def)
    next
      case False
      with Inr Cons.prems [of a "snd (cb a s)"] Cons.IH Cons.prems ns [of a s]
      show ?thesis by simp
    qed
  qed
qed

lemma forEachDescendantWithin_noskip:
  assumes ns: "\<And>c s. fst (cb c s) = False"
  shows "forEachDescendantWithin d cb n s =
           (if nestingDepth n \<le> d then Inr (forEachDescendant cb n s) else Inl RangeError)"
proof (induction d arbitrary: n s)
  case 0
  show ?case by (simp add: nestingDepth.simps [of n])
next
  case (Suc d)
  have "(nestingDepth n \<le> Suc d) = (\<forall>c\<in>set (forEachChild n). nestingDepth c \<le> d)"
    by (subst nestingDepth.simps) (simp add: fold_max_le)
  then show ?case
    by (simp add: fold_within_noskip [where cb = cb, OF ns Suc] forEachDescendant_unfold [of cb n])
qed

lemma classifyWithin_eq:
  "classifyWithin d n =
     (case getBody n of
        None \<Rightarrow> Inr (classify n)
      | Some b \<Rightarrow> if nestingDepth b \<le> d then Inr (classify n) else Inl RangeError)"
proof -
  have "fst (descendantCallback c s) = False" for c s
    by (simp add: descendantCallback_def)
  then show ?thesis
    by (simp add: classifyWithin_def check1Within_def classify_def check1_def
          forEachDescendantWithin_noskip split: option.splits)
qed

lemma nestingDepth_sumOfOnes: "nestingDepth (sumOfOnes k) = Suc k"
  by (induction k) (simp_all add: nestingDepth.simps [of "Other k cs" for k cs])

lemma nestingDepth_longSum_body:
  "nestingDepth (Block [ReturnStatement (Some (sumOfOnes k))]) = k + 3"
  by (simp add: nestingDepth.simps [of "Block ss" for ss]
        nestingDepth.simps [of "ReturnStatement e" for e] nestingDepth_sumOfOnes)


lemma classify_same_body: "getBody n = getBody n' \<Longrightarrow> classify n = classify n'"
  by (rule locals.equality) (simp_all add: returnsJsx_classify skip_classify)

text \<open>Whatever the stack holds, some function is too deep for it.\<close>

lemma longSum_overflows: "classifyWithin d (longSum d) = Inl RangeError"
  by (simp add: longSum_def classifyWithin_eq nestingDepth_longSum_body)

section \<open>Counting\<close>

lemma analyzeSourceFile_total:
  "total (analyzeSourceFile sf c) = total c + length (enumerated sf)"
proof -
  let ?R = "\<lambda>s acc. total s = total c + length (acc :: node list)"
  have "?R (forEachDescendant nodeCallback (root sf) c)
           (forEachDescendant enumerateCallback (root sf) [])"
    by (rule forEachDescendant_rel [where R = ?R])
       (auto simp: nodeCallback_def enumerateCallback_def isFunctionLike_def total_def Let_def)
  then show ?thesis by (simp add: analyzeSourceFile_def enumerated_def)
qed

lemma fold_processSourceFile_total:
  "total (snd (fold processSourceFile sfs st)) = total (snd st) + length (concat (map enumerated sfs))"
  by (induction sfs arbitrary: st) (simp_all add: processSourceFile_def analyzeSourceFile_total)

lemma enumerated_function_like: "list_all isFunctionLike (enumerated sf)"
proof -
  let ?R = "\<lambda>s t. s = t \<and> list_all isFunctionLike s"
  have "?R (forEachDescendant enumerateCallback (root sf) [])
           (forEachDescendant enumerateCallback (root sf) [])"
    by (rule forEachDescendant_rel [where R = ?R]) (auto simp: enumerateCallback_def)
  then show ?thesis by (simp add: enumerated_def)
qed


lemmas run_eval = forEachDescendant_unfold visitNode_def nodeCallback_def enumerateCallback_def
  analyzeSourceFile_def enumerated_def isFunctionLike_def returnsJsx_classify skip_classify

lemmas tree_eval = descendants_unfold subtree_def containsMarkup_def isMarkupNode_def

section \<open>Properties of the classifier\<close>

text \<open>
  C4. An arrow function whose expression body (no block) is directly a markup node, such as
  \<^verbatim>\<open>() => <div/>\<close>, is classified MarkupProducing: whatever its other children are, the
  verdict is MarkupProducing and the callback increments the counter of JSX functions.
\<close>

theorem arrow_expression_body_markup:
  assumes "isMarkupNode b"
  shows "classification (ArrowFunction pre b) = MarkupProducing
       \<and> snd (nodeCallback (ArrowFunction pre b) c)
           = c\<lparr>jsxFunctionCount := jsxFunctionCount c + 1\<rparr>"
  using assms
  by (simp add: classification_def nodeCallback_def returnsJsx_classify containsMarkup_def
        subtree_def)

theorem arrow_expression_body_markup_witness:
  "isMarkupNode (JsxSelfClosingElement [Other Identifier []])
   \<and> classification scenarioA = MarkupProducing
   \<and> snd (nodeCallback scenarioA \<lparr>jsxFunctionCount = 0, normalFunctionCount = 0\<rparr>)
       = \<lparr>jsxFunctionCount = 1, normalFunctionCount = 0\<rparr>"
  using arrow_expression_body_markup
          [of "JsxSelfClosingElement [Other Identifier []]" "[]"
              "\<lparr>jsxFunctionCount = 0, normalFunctionCount = 0\<rparr>"]
  by (simp add: scenarioA_def isMarkupNode_def)

text \<open>
  C3. Every function-like node whose body subtree contains at least one markup node
  (element, self-closing element or fragment) at any depth is classified MarkupProducing,
  whether or not the markup is returned. Only function-like nodes have a body, so the
  first assumption makes \<open>n\<close> one of them. Scenario C, where the markup is bound to a local
  variable and the function returns \<^verbatim>\<open>null\<close>, is the witness.
\<close>

theorem markup_in_body_is_markup_producing:
  assumes "getBody n = Some b" and "containsMarkup b"
  shows "classification n = MarkupProducing"
  using assms by (simp add: classification_def returnsJsx_classify)

theorem markup_in_body_is_markup_producing_witness:
  "getBody scenarioC = Some (Block scenarioC_statements)
   \<and> containsMarkup (Block scenarioC_statements)
   \<and> classification scenarioC = MarkupProducing"
proof -
  have b: "getBody scenarioC = Some (Block scenarioC_statements)"
    by (simp add: scenarioC_def)
  have m: "containsMarkup (Block scenarioC_statements)"
    by (simp add: scenarioC_statements_def tree_eval)
  from markup_in_body_is_markup_producing [OF b m] b m show ?thesis by simp
qed


text \<open>
  C6. A function-like node with an empty body is classified Plain, and more generally a
  function whose body subtree contains no markup node (so that, in particular, none of its
  top-level return statements returns markup) is classified Plain. Scenario B,
  \<^verbatim>\<open>function f(){ return 1 + 1; }\<close>, is the witness.
\<close>

theorem no_markup_is_plain:
  "classification (FunctionDeclaration pre (Some [])) = Plain
   \<and> classification (FunctionExpression pre []) = Plain
   \<and> classification (ArrowFunction pre (Block [])) = Plain
   \<and> (getBody n = Some b \<and> \<not> containsMarkup b \<longrightarrow> classification n = Plain)"
  by (simp add: classification_def returnsJsx_classify tree_eval)

theorem no_markup_is_plain_witness:
  "getBody scenarioB = Some (Block scenarioB_statements)
   \<and> \<not> containsMarkup (Block scenarioB_statements)
   \<and> classification scenarioB = Plain"
proof -
  have b: "getBody scenarioB = Some (Block scenarioB_statements)"
    by (simp add: scenarioB_def)
  have m: "\<not> containsMarkup (Block scenarioB_statements)"
    by (simp add: scenarioB_statements_def tree_eval)
  from no_markup_is_plain [where n = scenarioB and b = "Block scenarioB_statements"] b m
  show ?thesis by simp
qed

text \<open>
  C9. A function declaration that has no body (an overload signature or an ambient
  declaration) is a function-like node for the callback, neither check changes the
  variables it is given, the verdict is Plain, and the callback increments the counter of
  other functions without skipping. A file holding one overload signature counts one
  other function.
\<close>

theorem bodyless_declaration_is_plain:
  "isFunctionLike (FunctionDeclaration pre None)
   \<and> check1 (FunctionDeclaration pre None) l = l
   \<and> check2 (FunctionDeclaration pre None) l = l
   \<and> classification (FunctionDeclaration pre None) = Plain
   \<and> nodeCallback (FunctionDeclaration pre None) c
       = (False, c\<lparr>normalFunctionCount := normalFunctionCount c + 1\<rparr>)
   \<and> enumerated overloadFile = [overloadSignature]
   \<and> analyzeSourceFile overloadFile \<lparr>jsxFunctionCount = 0, normalFunctionCount = 0\<rparr>
       = \<lparr>jsxFunctionCount = 0, normalFunctionCount = 1\<rparr>"
proof -
  have "enumerated overloadFile = [overloadSignature]"
    by (simp add: overloadFile_def overloadSignature_def run_eval)
  moreover have "analyzeSourceFile overloadFile \<lparr>jsxFunctionCount = 0, normalFunctionCount = 0\<rparr>
       = \<lparr>jsxFunctionCount = 0, normalFunctionCount = 1\<rparr>"
    by (simp add: overloadFile_def overloadSignature_def run_eval)
  ultimately show ?thesis
    by (simp add: isFunctionLike_def check1_def check2_def classification_def nodeCallback_def
          returnsJsx_classify skip_classify)
qed

text \<open>
  C7 (as amended). Classification is a deterministic function of the function node's body
  subtree, but not a total one. On a call stack that holds \<open>d\<close> more levels of the
  recursive traversal, the classifier returns exactly when the body is absent or nests at
  most \<open>d\<close> levels deep, and throws \<^verbatim>\<open>RangeError\<close> on a deeper body. When it returns, its
  result is that of the classifier on an unbounded stack: the same for two nodes with the
  same body, the same whatever the counters are when the callback reaches the node, and
  MarkupProducing exactly when the body subtree contains a markup node.
\<close>

theorem classification_determined_by_body_within_stack:
  "classifyWithin d n =
     (case getBody n of
        None \<Rightarrow> Inr (classify n)
      | Some b \<Rightarrow> if nestingDepth b \<le> d then Inr (classify n) else Inl RangeError)
   \<and> (getBody n = getBody n' \<longrightarrow>
        classifyWithin d n = classifyWithin d n' \<and> classification n = classification n')
   \<and> (isFunctionLike n \<longrightarrow>
        nodeCallback n c =
          (skip (classify n),
           case classification n of
             MarkupProducing \<Rightarrow> c\<lparr>jsxFunctionCount := jsxFunctionCount c + 1\<rparr>
           | Plain \<Rightarrow> c\<lparr>normalFunctionCount := normalFunctionCount c + 1\<rparr>))
   \<and> classification n =
        (case getBody n of
           None \<Rightarrow> Plain
         | Some b \<Rightarrow> if containsMarkup b then MarkupProducing else Plain)"
proof -
  have 1: "classifyWithin d n =
     (case getBody n of
        None \<Rightarrow> Inr (classify n)
      | Some b \<Rightarrow> if nestingDepth b \<le> d then Inr (classify n) else Inl RangeError)"
    by (rule classifyWithin_eq)
  have 2: "getBody n = getBody n' \<longrightarrow>
        classifyWithin d n = classifyWithin d n' \<and> classification n = classification n'"
  proof
    assume "getBody n = getBody n'"
    then show "classifyWithin d n = classifyWithin d n' \<and> classification n = classification n'"
      using classify_same_body [of n n']
      by (simp add: classifyWithin_eq classification_def split: option.splits)
  qed
  have 3: "isFunctionLike n \<longrightarrow>
        nodeCallback n c =
          (skip (classify n),
           case classification n of
             MarkupProducing \<Rightarrow> c\<lparr>jsxFunctionCount := jsxFunctionCount c + 1\<rparr>
           | Plain \<Rightarrow> c\<lparr>normalFunctionCount := normalFunctionCount c + 1\<rparr>)"
    by (simp add: nodeCallback_def isFunctionLike_def classification_def Let_def)
  have 4: "classification n =
        (case getBody n of
           None \<Rightarrow> Plain
         | Some b \<Rightarrow> if containsMarkup b then MarkupProducing else Plain)"
    by (simp add: classification_def returnsJsx_classify split: option.splits)
  from 1 2 3 4 show ?thesis by blast
qed

theorem classification_determined_by_body_within_stack_witness:
  "isFunctionLike scenarioB
   \<and> nodeCallback scenarioB \<lparr>jsxFunctionCount = 3, normalFunctionCount = 4\<rparr>
       = (False, \<lparr>jsxFunctionCount = 3, normalFunctionCount = 5\<rparr>)
   \<and> getBody scenarioB = getBody (ArrowFunction [] (Block scenarioB_statements))
   \<and> classifyWithin 4 scenarioB = Inr \<lparr>returnsJsx = False, skip = False\<rparr>
   \<and> classifyWithin 4 (ArrowFunction [] (Block scenarioB_statements))
       = Inr \<lparr>returnsJsx = False, skip = False\<rparr>
   \<and> classifyWithin 3 scenarioB = Inl RangeError
   \<and> classification scenarioB = classification (ArrowFunction [] (Block scenarioB_statements))"
proof -
  have f: "isFunctionLike scenarioB" by (simp add: scenarioB_def isFunctionLike_def)
  have b: "getBody scenarioB = getBody (ArrowFunction [] (Block scenarioB_statements))"
      "getBody scenarioB = Some (Block scenarioB_statements)"
    by (simp_all add: scenarioB_def)
  have h: "nestingDepth (Block scenarioB_statements) = 4"
    by (simp add: scenarioB_statements_def nestingDepth.simps)
  have p: "classification scenarioB = Plain"
    by (simp add: scenarioB_def scenarioB_statements_def classification_def returnsJsx_classify
          tree_eval)
  have k: "classify scenarioB = \<lparr>returnsJsx = False, skip = False\<rparr>"
    by (rule locals.equality)
       (simp_all add: scenarioB_def scenarioB_statements_def returnsJsx_classify skip_classify
          tree_eval)
  note at4 = classification_determined_by_body_within_stack
         [of 4 scenarioB "ArrowFunction [] (Block scenarioB_statements)"
             "\<lparr>jsxFunctionCount = 3, normalFunctionCount = 4\<rparr>"]
  note at3 = classification_determined_by_body_within_stack
         [of 3 scenarioB "ArrowFunction [] (Block scenarioB_statements)"
             "\<lparr>jsxFunctionCount = 3, normalFunctionCount = 4\<rparr>"]
  from at4 b(2) h k have w4: "classifyWithin 4 scenarioB = Inr \<lparr>returnsJsx = False, skip = False\<rparr>"
    by simp
  from at4 b(1) have same: "classifyWithin 4 scenarioB
        = classifyWithin 4 (ArrowFunction [] (Block scenarioB_statements))"
      "classification scenarioB = classification (ArrowFunction [] (Block scenarioB_statements))"
    by blast+
  from at4 f have "nodeCallback scenarioB \<lparr>jsxFunctionCount = 3, normalFunctionCount = 4\<rparr> =
          (skip (classify scenarioB),
           case classification scenarioB of
             MarkupProducing \<Rightarrow> \<lparr>jsxFunctionCount = 3, normalFunctionCount = 4\<rparr>
                 \<lparr>jsxFunctionCount := jsxFunctionCount \<lparr>jsxFunctionCount = 3, normalFunctionCount = 4\<rparr> + 1\<rparr>
           | Plain \<Rightarrow> \<lparr>jsxFunctionCount = 3, normalFunctionCount = 4\<rparr>
                 \<lparr>normalFunctionCount := normalFunctionCount \<lparr>jsxFunctionCount = 3, normalFunctionCount = 4\<rparr> + 1\<rparr>)"
    by blast
  with p k have cb: "nodeCallback scenarioB \<lparr>jsxFunctionCount = 3, normalFunctionCount = 4\<rparr>
       = (False, \<lparr>jsxFunctionCount = 3, normalFunctionCount = 5\<rparr>)"
    by simp
  from at3 b(2) h have w3: "classifyWithin 3 scenarioB = Inl RangeError"
    by simp
  from same(1) w4 have w4': "classifyWithin 4 (ArrowFunction [] (Block scenarioB_statements))
       = Inr \<lparr>returnsJsx = False, skip = False\<rparr>"
    by simp
  from f cb b(1) w4 w4' w3 same(2) show ?thesis by blast
qed

text \<open>
  The claim as stated, that classification never fails, is false on any bounded stack.
  With room for 10000 levels the classifier throws on a function that returns a sum of
  10001 literals, whose body nests 10003 levels deep; \<open>longSum_overflows\<close> gives such a
  function for every bound.
\<close>

theorem classification_fails_on_deep_body_counterexample:
  "isFunctionLike (longSum 10000) \<and> classifyWithin 10000 (longSum 10000) = Inl RangeError"
  using longSum_overflows [of 10000] by (simp add: longSum_def isFunctionLike_def)

text \<open>
  C2 (as amended). The verdict of the callback is the disjunction of check 1 and check 2.
  For a function declaration, a function expression and an arrow function with a block
  body, check 2 never changes the outcome of check 1. Check 1 scans only the nodes strictly
  below the body, so for an arrow function whose expression body is itself a markup node
  check 2 decides: the disjunction equals check 1 or "the node is an arrow function whose
  body is a markup node".
\<close>

theorem check2_matters_only_for_markup_arrow_body:
  "returnsJsx (classify n)
     = (returnsJsx (check1 n \<lparr>returnsJsx = False, skip = False\<rparr>)
        \<or> returnsJsx (check2 n \<lparr>returnsJsx = False, skip = False\<rparr>))
   \<and> (returnsJsx (check1 n \<lparr>returnsJsx = False, skip = False\<rparr>)
        \<or> returnsJsx (check2 n \<lparr>returnsJsx = False, skip = False\<rparr>))
     = (returnsJsx (check1 n \<lparr>returnsJsx = False, skip = False\<rparr>)
        \<or> (case n of ArrowFunction pre b \<Rightarrow> isMarkupNode b | _ \<Rightarrow> False))"
proof -
  have "(case getBody n of None \<Rightarrow> False | Some b \<Rightarrow> containsMarkup b)
     = (returnsJsx (check1 n \<lparr>returnsJsx = False, skip = False\<rparr>)
        \<or> (case n of ArrowFunction pre b \<Rightarrow> isMarkupNode b | _ \<Rightarrow> False))"
    by (cases n; cases "getBody n")
       (auto simp: returnsJsx_check1 containsMarkup_def subtree_def isMarkupNode_def)
  then show ?thesis
    by (simp only: check1_or_check2 returnsJsx_classify)
qed

text \<open>
  The claim as stated, that check 1 alone equals the disjunction for every function-like
  node, fails at Scenario A, \<^verbatim>\<open>() => <div/>\<close>: nothing below the self-closing element is a
  markup node, check 1 leaves \<^verbatim>\<open>returnsJsx\<close> unset, and check 2 sets it.
\<close>

theorem check2_changes_outcome_counterexample:
  "isFunctionLike scenarioA
   \<and> returnsJsx (check1 scenarioA \<lparr>returnsJsx = False, skip = False\<rparr>)
       \<noteq> (returnsJsx (check1 scenarioA \<lparr>returnsJsx = False, skip = False\<rparr>)
           \<or> returnsJsx (check2 scenarioA \<lparr>returnsJsx = False, skip = False\<rparr>))
   \<and> \<not> returnsJsx (check1 scenarioA \<lparr>returnsJsx = False, skip = False\<rparr>)
   \<and> returnsJsx (classify scenarioA)"
  by (simp add: scenarioA_def isFunctionLike_def returnsJsx_check1 check2_def
        returnsJsx_classify tree_eval)

section \<open>Properties of the enumeration and the counters\<close>

text \<open>
  C5. After every run the two counters add up to the number of function-like nodes the
  traversal enumerated across all files: the callback changes the counters only at a
  function-like node, where it increments exactly one of them, and the report's total of
  functions found is the sum of the two counters. The enumerated nodes are those the
  file-level traversal calls its callback on.
\<close>

theorem counters_sum_to_enumerated:
  "snd (nodeCallback n c) =
     (if isFunctionLike n
      then (if returnsJsx (classify n)
            then c\<lparr>jsxFunctionCount := jsxFunctionCount c + 1\<rparr>
            else c\<lparr>normalFunctionCount := normalFunctionCount c + 1\<rparr>)
      else c)
   \<and> jsxFunctionCount (snd (processSourceFiles folder sfs))
       + normalFunctionCount (snd (processSourceFiles folder sfs))
       = length (concat (map enumerated sfs))
   \<and> (getSourceFiles env folder = Inr sfs \<longrightarrow>
        analyzeFunctions env folder =
          (fst (processSourceFiles folder sfs) @
           [AnalysisComplete,
            TotalFilesAnalyzed (length sfs),
            FunctionsReturningJsx (jsxFunctionCount (snd (processSourceFiles folder sfs))),
            OtherFunctions (normalFunctionCount (snd (processSourceFiles folder sfs))),
            TotalFunctionsFound (length (concat (map enumerated sfs)))],
           None))"
proof -
  have a: "jsxFunctionCount (snd (processSourceFiles folder sfs))
       + normalFunctionCount (snd (processSourceFiles folder sfs))
       = length (concat (map enumerated sfs))"
    using fold_processSourceFile_total
            [of sfs "([Analyzing (length sfs) folder],
                      \<lparr>jsxFunctionCount = 0, normalFunctionCount = 0\<rparr>)"]
    by (simp add: processSourceFiles_def total_def)
  have b: "snd (nodeCallback n c) =
     (if isFunctionLike n
      then (if returnsJsx (classify n)
            then c\<lparr>jsxFunctionCount := jsxFunctionCount c + 1\<rparr>
            else c\<lparr>normalFunctionCount := normalFunctionCount c + 1\<rparr>)
      else c)"
    by (simp add: nodeCallback_def isFunctionLike_def Let_def)
  have c: "getSourceFiles env folder = Inr sfs \<longrightarrow>
        analyzeFunctions env folder =
          (fst (processSourceFiles folder sfs) @
           [AnalysisComplete,
            TotalFilesAnalyzed (length sfs),
            FunctionsReturningJsx (jsxFunctionCount (snd (processSourceFiles folder sfs))),
            OtherFunctions (normalFunctionCount (snd (processSourceFiles folder sfs))),
            TotalFunctionsFound (length (concat (map enumerated sfs)))],
           None)"
    using a by (simp add: analyzeFunctions_def Let_def)
  from a b c show ?thesis by blast
qed

theorem counters_sum_to_enumerated_witness:
  "getSourceFiles exampleEnvironment ''/src'' = Inr [scenarioD, overloadFile]
   \<and> analyzeFunctions exampleEnvironment ''/src'' =
       ([Analyzing 2 ''/src'', ProcessingFile ''/src/d.tsx'', ProcessingFile ''/src/o.ts'',
         AnalysisComplete, TotalFilesAnalyzed 2, FunctionsReturningJsx 1, OtherFunctions 1,
         TotalFunctionsFound 2], None)
   \<and> length (concat (map enumerated [scenarioD, overloadFile])) = 2"
proof -
  have g: "getSourceFiles exampleEnvironment ''/src'' = Inr [scenarioD, overloadFile]"
    by (simp add: exampleEnvironment_def)
  have d: "analyzeSourceFile scenarioD \<lparr>jsxFunctionCount = 0, normalFunctionCount = 0\<rparr>
          = \<lparr>jsxFunctionCount = 1, normalFunctionCount = 0\<rparr>"
    by (simp add: scenarioD_def scenarioD_outer_def scenarioD_inner_def run_eval tree_eval)
  have o: "analyzeSourceFile overloadFile \<lparr>jsxFunctionCount = 1, normalFunctionCount = 0\<rparr>
          = \<lparr>jsxFunctionCount = 1, normalFunctionCount = 1\<rparr>"
    by (simp add: overloadFile_def overloadSignature_def run_eval)
  have p: "processSourceFiles ''/src'' [scenarioD, overloadFile] =
     ([Analyzing 2 ''/src'', ProcessingFile ''/src/d.tsx'', ProcessingFile ''/src/o.ts''],
      \<lparr>jsxFunctionCount = 1, normalFunctionCount = 1\<rparr>)"
    by (simp only: processSourceFiles_def processSourceFile_def fold.simps o_apply id_apply
          fst_conv snd_conv d o)
       (simp add: scenarioD_def overloadFile_def)
  from counters_sum_to_enumerated
         [of scenarioA "\<lparr>jsxFunctionCount = 0, normalFunctionCount = 0\<rparr>"
             "''/src''" "[scenarioD, overloadFile]" exampleEnvironment] g p
  show ?thesis by simp
qed

text \<open>
  C10. Only function declarations, function expressions and arrow functions are enumerated
  and counted. At any other node, whatever its kind and children (a method, a constructor,
  a getter or a setter among them), the callback leaves both counters as they are and does
  not skip; every enumerated node is function-like; and a class whose method and getter
  return markup adds nothing to either counter.
\<close>

theorem only_function_like_nodes_counted:
  "(\<not> isFunctionLike n \<longrightarrow> nodeCallback n c = (False, c))
   \<and> nodeCallback (Other k cs) c = (False, c)
   \<and> list_all isFunctionLike (enumerated sf)
   \<and> enumerated classFile = []
   \<and> analyzeSourceFile classFile c = c"
proof -
  have "enumerated classFile = []"
    by (simp add: classFile_def classExample_def run_eval)
  moreover have "analyzeSourceFile classFile c = c"
    by (simp add: classFile_def classExample_def run_eval)
  ultimately show ?thesis
    by (simp add: nodeCallback_def isFunctionLike_def enumerated_function_like)
qed

theorem only_function_like_nodes_counted_witness:
  "\<not> isFunctionLike
        (Other MethodDeclaration
           [Other Identifier [],
            Block [ReturnStatement (Some (JsxSelfClosingElement [Other Identifier []]))]])
   \<and> nodeCallback
        (Other MethodDeclaration
           [Other Identifier [],
            Block [ReturnStatement (Some (JsxSelfClosingElement [Other Identifier []]))]])
        \<lparr>jsxFunctionCount = 0, normalFunctionCount = 0\<rparr>
       = (False, \<lparr>jsxFunctionCount = 0, normalFunctionCount = 0\<rparr>)"
  using only_function_like_nodes_counted
          [of "Other MethodDeclaration
                 [Other Identifier [],
                  Block [ReturnStatement (Some (JsxSelfClosingElement [Other Identifier []]))]]"
              "\<lparr>jsxFunctionCount = 0, normalFunctionCount = 0\<rparr>"
              MethodDeclaration "[]" classFile]
  by (simp add: isFunctionLike_def)

text \<open>
  C1, at Scenario D. The file holds two function-like nodes, \<^verbatim>\<open>outer\<close> and \<^verbatim>\<open>inner\<close>, and
  the classifier would call both MarkupProducing. The callback on \<^verbatim>\<open>outer\<close> finds the markup
  of \<^verbatim>\<open>inner\<close> below its body and calls \<^verbatim>\<open>traversal.skip()\<close> on the file-level traversal,
  which then does not descend into \<^verbatim>\<open>outer\<close>: only \<^verbatim>\<open>outer\<close> is enumerated and the run
  counts one function, not two.
\<close>

theorem scenarioD_inner_skipped:
  "filter isFunctionLike (descendants (root scenarioD)) = [scenarioD_outer, scenarioD_inner]
   \<and> classification scenarioD_outer = MarkupProducing
   \<and> classification scenarioD_inner = MarkupProducing
   \<and> nodeCallback scenarioD_outer \<lparr>jsxFunctionCount = 0, normalFunctionCount = 0\<rparr>
       = (True, \<lparr>jsxFunctionCount = 1, normalFunctionCount = 0\<rparr>)
   \<and> enumerated scenarioD = [scenarioD_outer]
   \<and> analyzeSourceFile scenarioD \<lparr>jsxFunctionCount = 0, normalFunctionCount = 0\<rparr>
       = \<lparr>jsxFunctionCount = 1, normalFunctionCount = 0\<rparr>"
proof -
  have "filter isFunctionLike (descendants (root scenarioD)) = [scenarioD_outer, scenarioD_inner]"
    by (simp add: scenarioD_def scenarioD_outer_def scenarioD_inner_def tree_eval
          isFunctionLike_def)
  moreover have "classification scenarioD_outer = MarkupProducing"
    by (simp add: scenarioD_outer_def scenarioD_inner_def classification_def
          returnsJsx_classify tree_eval)
  moreover have "classification scenarioD_inner = MarkupProducing"
    by (simp add: scenarioD_inner_def classification_def returnsJsx_classify tree_eval)
  moreover have "nodeCallback scenarioD_outer \<lparr>jsxFunctionCount = 0, normalFunctionCount = 0\<rparr>
       = (True, \<lparr>jsxFunctionCount = 1, normalFunctionCount = 0\<rparr>)"
    by (simp add: scenarioD_outer_def scenarioD_inner_def run_eval tree_eval)
  moreover have "enumerated scenarioD = [scenarioD_outer]"
    by (simp add: scenarioD_def scenarioD_outer_def scenarioD_inner_def run_eval tree_eval)
  moreover have "analyzeSourceFile scenarioD \<lparr>jsxFunctionCount = 0, normalFunctionCount = 0\<rparr>
       = \<lparr>jsxFunctionCount = 1, normalFunctionCount = 0\<rparr>"
    by (simp add: scenarioD_def scenarioD_outer_def scenarioD_inner_def run_eval tree_eval)
  ultimately show ?thesis by blast
qed

section \<open>Properties of the top level\<close>

text \<open>
  C8. The process exits with code 1, writes a diagnostic to standard error and prints no
  report when no argument is supplied (or the argument is the empty string) and when the
  argument does not resolve to an existing directory; an error raised during the analysis
  is caught at the top level, reported on standard error, and also gives exit code 1.
  The witness runs the three cases, Scenario F among them.
\<close>

theorem failures_exit_with_code_1:
  "(argv2 env = None \<or> argv2 env = Some [] \<longrightarrow>
      main env = \<lparr>exitCode = 1, stdout = [], stderr = [ProvideTargetFolder, Usage]\<rparr>)
   \<and> (argv2 env = Some a \<and> a \<noteq> []
        \<and> \<not> (existsSync env (resolve env a) \<and> isDirectory env (resolve env a)) \<longrightarrow>
      main env = \<lparr>exitCode = 1, stdout = [], stderr = [NotADirectory (resolve env a)]\<rparr>)
   \<and> (argv2 env = Some a \<and> a \<noteq> []
        \<and> existsSync env (resolve env a) \<and> isDirectory env (resolve env a)
        \<and> snd (analyzeFunctions env (resolve env a)) = Some e \<longrightarrow>
      exitCode (main env) = 1 \<and> stderr (main env) = [ErrorDuringAnalysis e]
      \<and> AnalysisComplete \<notin> set (stdout (main env)))"
proof -
  have 1: "argv2 env = None \<or> argv2 env = Some [] \<longrightarrow>
      main env = \<lparr>exitCode = 1, stdout = [], stderr = [ProvideTargetFolder, Usage]\<rparr>"
    by (auto simp: main_def)
  have 2: "argv2 env = Some a \<and> a \<noteq> []
        \<and> \<not> (existsSync env (resolve env a) \<and> isDirectory env (resolve env a)) \<longrightarrow>
      main env = \<lparr>exitCode = 1, stdout = [], stderr = [NotADirectory (resolve env a)]\<rparr>"
    by (auto simp: main_def Let_def)
  have 3: "exitCode (main env) = 1 \<and> stderr (main env) = [ErrorDuringAnalysis e]
      \<and> AnalysisComplete \<notin> set (stdout (main env))"
    if arg: "argv2 env = Some a" "a \<noteq> []"
      and dir: "existsSync env (resolve env a)" "isDirectory env (resolve env a)"
      and err: "snd (analyzeFunctions env (resolve env a)) = Some e"
  proof -
    from err have "analyzeFunctions env (resolve env a) = ([], Some e)"
      by (cases "getSourceFiles env (resolve env a)")
         (simp_all add: analyzeFunctions_def Let_def)
    with arg dir show ?thesis by (simp add: main_def Let_def)
  qed
  from 1 2 3 show ?thesis by blast
qed

theorem failures_exit_with_code_1_witness:
  "argv2 noArgumentEnvironment = None
   \<and> main noArgumentEnvironment
       = \<lparr>exitCode = 1, stdout = [], stderr = [ProvideTargetFolder, Usage]\<rparr>
   \<and> argv2 scenarioF = Some ''missing'' \<and> ''missing'' \<noteq> []
   \<and> \<not> (existsSync scenarioF (resolve scenarioF ''missing'')
          \<and> isDirectory scenarioF (resolve scenarioF ''missing''))
   \<and> main scenarioF = \<lparr>exitCode = 1, stdout = [], stderr = [NotADirectory ''/missing'']\<rparr>
   \<and> argv2 failingLoaderEnvironment = Some ''src'' \<and> ''src'' \<noteq> []
   \<and> existsSync failingLoaderEnvironment (resolve failingLoaderEnvironment ''src'')
   \<and> isDirectory failingLoaderEnvironment (resolve failingLoaderEnvironment ''src'')
   \<and> snd (analyzeFunctions failingLoaderEnvironment (resolve failingLoaderEnvironment ''src''))
       = Some (AnalysisError ''EACCES'')
   \<and> exitCode (main failingLoaderEnvironment) = 1
   \<and> stderr (main failingLoaderEnvironment) = [ErrorDuringAnalysis (AnalysisError ''EACCES'')]"
proof -
  have n: "argv2 noArgumentEnvironment = None"
    by (simp add: noArgumentEnvironment_def)
  have f: "argv2 scenarioF = Some ''missing''" "''missing'' \<noteq> []"
      "\<not> (existsSync scenarioF (resolve scenarioF ''missing'')
          \<and> isDirectory scenarioF (resolve scenarioF ''missing''))"
      "resolve scenarioF ''missing'' = ''/missing''"
    by (simp_all add: scenarioF_def exampleEnvironment_def)
  have l: "argv2 failingLoaderEnvironment = Some ''src''" "''src'' \<noteq> []"
      "existsSync failingLoaderEnvironment (resolve failingLoaderEnvironment ''src'')"
      "isDirectory failingLoaderEnvironment (resolve failingLoaderEnvironment ''src'')"
      "snd (analyzeFunctions failingLoaderEnvironment (resolve failingLoaderEnvironment ''src''))
       = Some (AnalysisError ''EACCES'')"
    by (simp_all add: failingLoaderEnvironment_def exampleEnvironment_def analyzeFunctions_def)
  from failures_exit_with_code_1 [of noArgumentEnvironment "''x''" "AnalysisError ''''"] n
  have 1: "main noArgumentEnvironment
       = \<lparr>exitCode = 1, stdout = [], stderr = [ProvideTargetFolder, Usage]\<rparr>"
    by simp
  from failures_exit_with_code_1 [of scenarioF "''missing''" "AnalysisError ''''"] f
  have 2: "main scenarioF = \<lparr>exitCode = 1, stdout = [], stderr = [NotADirectory ''/missing'']\<rparr>"
    by simp
  from failures_exit_with_code_1
         [of failingLoaderEnvironment "''src''" "AnalysisError ''EACCES''"] l
  have 3: "exitCode (main failingLoaderEnvironment) = 1
     \<and> stderr (main failingLoaderEnvironment) = [ErrorDuringAnalysis (AnalysisError ''EACCES'')]"
    by simp
  from n f l 1 2 3 show ?thesis by simp
qed

end
